theory Spec2Isabelle
  imports Main "HOL-Library.Sublist"
begin

unbundle bit_operations_syntax

section \<open>The environment sanitizer (main.cpp, lines 16 to 128)\<close>

text \<open>
  A \<open>char *\<close> is an address, \<open>0\<close> being \<open>nullptr\<close>; the bytes behind the pointers are a
  memory from addresses to bytes, so \<open>name[pos]\<close> is \<open>mem (name + pos)\<close>. The sanitizer only
  reads that memory. A string that never reaches a NUL byte is a memory with no NUL in the
  range that is scanned.
\<close>

type_synonym addr = nat
type_synonym memory = "addr \<Rightarrow> char"

definition NUL :: char where
  "NUL = CHR 0x00"

text \<open>\<open>const int MAX_ENV_LEN = 32*4096\<close>\<close>

definition MAX_ENV_LEN :: int where
  "MAX_ENV_LEN = 32 * 4096"

text \<open>
  The \<open>while (pos < MAX_ENV_LEN)\<close> loop of \<open>is_valid_environment_variable\<close>, with its
  \<open>break\<close> at the NUL byte; it returns the final \<open>pos\<close> and \<open>first_equal_pos\<close>.
\<close>

function scan_env :: "memory \<Rightarrow> addr \<Rightarrow> int \<Rightarrow> int \<Rightarrow> int \<times> int" where
  "scan_env mem name pos first_equal_pos =
     (if pos < MAX_ENV_LEN then
        (if mem (name + nat pos) = NUL then (pos, first_equal_pos)
         else scan_env mem name (pos + 1)
                (if mem (name + nat pos) = CHR ''='' \<and> first_equal_pos < 0 then pos
                 else first_equal_pos))
      else (pos, first_equal_pos))"
  by pat_completeness auto
termination
  by (relation "measure (\<lambda>(mem, name, pos, first_equal_pos). nat (MAX_ENV_LEN - pos))") auto

declare scan_env.simps [simp del]

definition is_valid_environment_variable :: "memory \<Rightarrow> addr \<Rightarrow> bool" where
  "is_valid_environment_variable mem name =
     (if name = 0 then False
      else (case scan_env mem name 0 (- 1) of
              (pos, first_equal_pos) \<Rightarrow>
                if pos \<ge> MAX_ENV_LEN then False
                else if first_equal_pos < 1 then False
                else True))"

text \<open>
  A string literal of the source is a \<open>string\<close>; \<open>literal_at name i\<close> is \<open>name[i]\<close>, the
  terminating NUL of the literal standing at index \<open>length name\<close>.
\<close>

definition literal_at :: "string \<Rightarrow> nat \<Rightarrow> char" where
  "literal_at name i = (if i < length name then name ! i else NUL)"

text \<open>The \<open>while (envstr[i] == name[i] && name[i] != '\0') ++i\<close> loop of \<open>env_match\<close>.\<close>

function env_match_loop :: "memory \<Rightarrow> addr \<Rightarrow> string \<Rightarrow> nat \<Rightarrow> nat" where
  "env_match_loop mem envstr name i =
     (if mem (envstr + i) = literal_at name i \<and> literal_at name i \<noteq> NUL
      then env_match_loop mem envstr name (i + 1)
      else i)"
  by pat_completeness auto
termination
  by (relation "measure (\<lambda>(mem, envstr, name, i). length name - i)")
     (auto simp: literal_at_def split: if_splits)

declare env_match_loop.simps [simp del]

text \<open>\<open>env_match\<close> returns \<open>envstr + i + 1\<close>, or \<open>nullptr\<close> (here \<open>None\<close>).\<close>

definition env_match :: "memory \<Rightarrow> addr \<Rightarrow> string \<Rightarrow> addr option" where
  "env_match mem envstr name =
     (let i = env_match_loop mem envstr name 0
      in if literal_at name i = NUL \<and> mem (envstr + i) = CHR ''=''
         then Some (envstr + i + 1)
         else None)"

definition UNSAFE_VARIABLE_NAMES :: "string list" where
  "UNSAFE_VARIABLE_NAMES =
     [''ANDROID_DNS_MODE'',
      ''GCONV_PATH'',
      ''GETCONF_DIR'',
      ''HOSTALIASES'',
      ''JE_MALLOC_CONF'',
      ''LD_AOUT_LIBRARY_PATH'',
      ''LD_AOUT_PRELOAD'',
      ''LD_AUDIT'',
      ''LD_CONFIG_FILE'',
      ''LD_DEBUG'',
      ''LD_DEBUG_OUTPUT'',
      ''LD_DYNAMIC_WEAK'',
      ''LD_LIBRARY_PATH'',
      ''LD_ORIGIN_PATH'',
      ''LD_PROFILE'',
      ''LD_SHOW_AUXV'',
      ''LD_USE_LOAD_BIAS'',
      ''LIBC_DEBUG_MALLOC_OPTIONS'',
      ''LIBC_HOOKS_ENABLE'',
      ''LOCALDOMAIN'',
      ''LOCPATH'',
      ''MALLOC_CHECK_'',
      ''MALLOC_CONF'',
      ''MALLOC_TRACE'',
      ''NIS_PATH'',
      ''NLSPATH'',
      ''RESOLV_HOST_CONF'',
      ''RES_OPTIONS'',
      ''SCUDO_OPTIONS'',
      ''TMPDIR'',
      ''TZDIR'']"

text \<open>The \<open>for\<close> loop over the deny list, returning \<open>true\<close> at the first match.\<close>

fun unsafe_loop :: "memory \<Rightarrow> addr \<Rightarrow> string list \<Rightarrow> bool" where
  "unsafe_loop mem name [] = False"
| "unsafe_loop mem name (unsafe_variable_name # rest) =
     (if env_match mem name unsafe_variable_name \<noteq> None then True
      else unsafe_loop mem name rest)"

definition is_unsafe_environment_variable :: "memory \<Rightarrow> addr \<Rightarrow> bool" where
  "is_unsafe_environment_variable mem name = unsafe_loop mem name UNSAFE_VARIABLE_NAMES"

text \<open>
  \<open>char **env\<close> is an array of pointers: the list \<open>env\<close> holds its cells, the entries, the
  null sentinel and whatever follows. \<open>src\<close> and \<open>dst\<close> are indices into that one array,
  which is rewritten in place. Reading a cell beyond the array (an array with no null
  sentinel) is undefined in C and \<open>None\<close> here.
\<close>

function sanitize_loop :: "memory \<Rightarrow> addr list \<Rightarrow> nat \<Rightarrow> nat \<Rightarrow> addr list option" where
  "sanitize_loop mem env src dst =
     (if src \<ge> length env then None
      else if env ! src = 0 then Some (env[dst := 0])
      else if \<not> is_valid_environment_variable mem (env ! src)
        then sanitize_loop mem env (src + 1) dst
      else if is_unsafe_environment_variable mem (env ! src)
        then sanitize_loop mem env (src + 1) dst
      else sanitize_loop mem (env[dst := env ! src]) (src + 1) (dst + 1))"
  by pat_completeness auto
termination
  by (relation "measure (\<lambda>(mem, env, src, dst). length env - src)") auto

declare sanitize_loop.simps [simp del]

definition sanitize_environment_variables :: "memory \<Rightarrow> addr list \<Rightarrow> addr list option" where
  "sanitize_environment_variables mem env = sanitize_loop mem env 0 0"

text \<open>The environment record a reader of the array sees: the cells before the first null.\<close>

definition env_entries :: "addr list \<Rightarrow> addr list" where
  "env_entries env = takeWhile (\<lambda>p. p \<noteq> 0) env"

text \<open>
  \<open>cstr_at mem p s\<close>: the memory at \<open>p\<close> holds the C string \<open>s\<close>, its bytes followed by the
  terminating NUL. \<open>store_cstr p s mem\<close> writes it there.
\<close>

definition cstr_at :: "memory \<Rightarrow> addr \<Rightarrow> string \<Rightarrow> bool" where
  "cstr_at mem p s =
     (map (\<lambda>i. mem (p + i)) [0..<length s] = s \<and> mem (p + length s) = NUL \<and> NUL \<notin> set s)"

definition store_cstr :: "addr \<Rightarrow> string \<Rightarrow> memory \<Rightarrow> memory" where
  "store_cstr p s mem =
     (\<lambda>a. if p \<le> a \<and> a < p + length s then s ! (a - p)
          else if a = p + length s then NUL
          else mem a)"

definition zero_memory :: memory where
  "zero_memory = (\<lambda>a. NUL)"

text \<open>The entry-by-entry decision of the loop body: an entry is copied to \<open>dst\<close> exactly then.\<close>

definition keep_entry :: "memory \<Rightarrow> addr \<Rightarrow> bool" where
  "keep_entry mem p =
     (is_valid_environment_variable mem p \<and> \<not> is_unsafe_environment_variable mem p)"

section \<open>Processes, descriptors and what a run does\<close>

text \<open>
  The three entry points talk to the outside through helpers that are not part of
  \<open>main.cpp\<close> (\<open>read_int\<close>, \<open>write_int\<close>, \<open>recv_fd\<close>, \<open>send_fd\<close>, \<open>zygisk_request\<close>,
  \<open>connect_daemon\<close>, \<open>exec_task\<close>, libc). A run is modelled by the list of the calls it
  makes, in order, and by how it ends; what each call returns is given by a record of
  results, one field per call site. Logging calls (\<open>android_logging\<close>, \<open>LOGI\<close>, \<open>LOGW\<close>,
  \<open>set_nice_name\<close>) are left out: they touch neither descriptors nor the environment.
\<close>

type_synonym fd = int

record environ =
  env_mem :: memory
  env_vec :: "addr list"

datatype event =
    Zygisk_request int fd
  | Connect_daemon int fd
  | Read_int fd int
  | Write_int fd int
  | Xwrite fd "char list"
  | Recv_fd fd int
  | Recv_fds fd "int list"
  | Send_fd fd int
  | Read_string fd string
  | Close fd
  | Fcntl_setfd fd int
  | Setenv string string
  | Write_attr_current string
  | Fexecve fd "string list" environ
  | Execve string "string list" environ
  | Execlp_magisk_passthrough fd bool
  | Xreadlink string
  | Xumount2 string int int
  | Fprintf_stderr
  | Socketpair fd fd
  | Fork int
  | Exec_task addr fd
  | Call_entry addr fd

text \<open>
  Each event is one call, with its arguments and, where it has one that matters, its
  result last: \<open>Zygisk_request code socket\<close> and \<open>Connect_daemon code socket\<close> return the
  connection, \<open>Read_int fd v\<close>, \<open>Recv_fd fd v\<close>, \<open>Recv_fds fd vs\<close> and \<open>Read_string fd s\<close> return
  what was received, \<open>Xumount2 path flags result\<close> returns \<open>result\<close>, \<open>Fork pid\<close> returns \<open>pid\<close>
  (a run follows the one process that sees this \<open>pid\<close>). \<open>Execlp_magisk_passthrough fd b\<close> is
  \<open>execlp("magisk", "", "zygisk", "passthrough", buf, b ? "1" : "0")\<close> with the decimal of
  \<open>fd\<close> in \<open>buf\<close>; \<open>Write_attr_current s\<close> is the \<open>fprintf\<close> of \<open>s\<close> to
  \<open>/proc/self/attr/current\<close>; \<open>Exec_task entry client\<close> is \<open>exec_task\<close> of the closure that
  captured \<open>entry\<close> and \<open>client\<close>, and \<open>Call_entry entry client\<close> is \<open>entry(client)\<close>.
\<close>

text \<open>
  How a run ends: \<open>return\<close>, \<open>exit\<close>, an \<open>exec\<close> that succeeded (the image is replaced and
  nothing of this program runs any more), blocked in \<open>poll\<close> with no further request, or
  undefined behaviour of the sanitizer on an array with no null sentinel.
\<close>

datatype outcome = Returned int | Exited int | Image_replaced | Waiting | Undefined_behaviour

type_synonym run = "event list \<times> outcome"

definition and_then :: "event list \<Rightarrow> run \<Rightarrow> run" where
  "and_then evs r = (evs @ fst r, snd r)"

definition FD_CLOEXEC :: int where
  "FD_CLOEXEC = 1"

definition MNT_DETACH :: int where
  "MNT_DETACH = 2"

definition POLLIN :: int where
  "POLLIN = 1"

section \<open>\<open>app_process_main\<close> (main.cpp, lines 131 to 225)\<close>

text \<open>
  The results of the calls \<open>app_process_main\<close> makes, and the constants it takes from
  headers that are not in the repository's sources (\<open>zygisk_ld\<close>, \<open>HIJACK_BIN\<close>,
  \<open>MAGISKTMP_ENV\<close>, the request code \<open>SETUP\<close>). \<open>attr_current\<close> is the token \<open>fscanf\<close> reads
  from \<open>/proc/self/attr/current\<close>, \<open>None\<close> when the file cannot be opened. \<open>self_exe\<close> is
  \<open>buf\<close> after \<open>xreadlink("/proc/self/exe", buf, sizeof(buf))\<close>. \<open>getenv\<close> and \<open>setenv\<close> are
  libc's, on the process environment (\<open>setenv\<close> always called with overwrite 1).
\<close>

record app_process_world =
  selinux_enabled :: bool
  attr_current :: "string option"
  lp64 :: bool
  socketpair_fds :: "fd \<times> fd"
  fork_dont_care :: int
  execlp_ok :: bool
  helper_status :: int
  helper_fd :: int
  SETUP :: int
  zygisk_request :: fd
  setup_status :: int
  zygisk_ld :: "char list"
  setup_fd :: int
  setup_tmp :: string
  HIJACK_BIN :: string
  MAGISKTMP_ENV :: string
  getenv :: "environ \<Rightarrow> string \<Rightarrow> string option"
  setenv :: "environ \<Rightarrow> string \<Rightarrow> string \<Rightarrow> environ"
  fexecve_ok :: bool
  self_exe :: string
  xumount2_result :: int
  execve_ok :: bool

text \<open>Classification: the \<open>--zygote\<close> argument without SELinux, the context label with it.\<close>

definition is_zygote :: "app_process_world \<Rightarrow> string list \<Rightarrow> bool" where
  "is_zygote w argv =
     (if \<not> selinux_enabled w then ''--zygote'' \<in> set argv
      else (case attr_current w of
              Some buf \<Rightarrow> buf = ''u:r:zygote:s0''
            | None \<Rightarrow> False))"

text \<open>Lines 220 to 224: unmount and execute the original \<open>app_process\<close>.\<close>

definition fallback :: "app_process_world \<Rightarrow> string list \<Rightarrow> environ \<Rightarrow> run" where
  "fallback w argv env =
     ([Xreadlink ''/proc/self/exe'',
       Xumount2 ''/proc/self/exe'' MNT_DETACH (xumount2_result w),
       Execve (self_exe w) argv env],
      if execve_ok w then Image_replaced else Returned 1)"

text \<open>Lines 156 to 183: the branch taken when the process is not zygote.\<close>

definition passthrough_branch :: "app_process_world \<Rightarrow> string list \<Rightarrow> environ \<Rightarrow> run" where
  "passthrough_branch w argv env =
     (case socketpair_fds w of (fds0, fds1) \<Rightarrow>
        if fork_dont_care w = 0 then
          ([Socketpair fds0 fds1, Fork 0, Fcntl_setfd fds1 0,
            Execlp_magisk_passthrough fds1 (lp64 w)],
           if execlp_ok w then Image_replaced else Exited (- 1))
        else if helper_status w \<noteq> 0 then
          ([Socketpair fds0 fds1, Fork (fork_dont_care w), Close fds1,
            Read_int fds0 (helper_status w), Fprintf_stderr],
           Returned 1)
        else if helper_fd w < 0 then
          ([Socketpair fds0 fds1, Fork (fork_dont_care w), Close fds1,
            Read_int fds0 (helper_status w), Recv_fd fds0 (helper_fd w)],
           Returned 1)
        else
          ([Socketpair fds0 fds1, Fork (fork_dont_care w), Close fds1,
            Read_int fds0 (helper_status w), Recv_fd fds0 (helper_fd w), Close fds0,
            Fcntl_setfd (helper_fd w) FD_CLOEXEC, Fexecve (helper_fd w) argv env],
           if fexecve_ok w then Image_replaced else Returned 1))"

text \<open>
  Lines 198 to 207: \<open>LD_PRELOAD\<close> gets the hijack library, appended after a colon to a
  value that is already there, and \<open>MAGISKTMP_ENV\<close> gets the path read from the daemon.
\<close>

definition preload_value :: "app_process_world \<Rightarrow> environ \<Rightarrow> string" where
  "preload_value w env =
     (case getenv w env ''LD_PRELOAD'' of
        Some ld \<Rightarrow> ld @ '':'' @ HIJACK_BIN w
      | None \<Rightarrow> HIJACK_BIN w)"

definition install_env :: "app_process_world \<Rightarrow> environ \<Rightarrow> environ" where
  "install_env w env =
     setenv w (setenv w env ''LD_PRELOAD'' (preload_value w env)) (MAGISKTMP_ENV w) (setup_tmp w)"

text \<open>
  Lines 185 to 218, the branch taken when the process is zygote. When \<open>fexecve\<close> fails the
  \<open>do\<close> block ends, \<open>close(socket)\<close> runs a second time and the fallback follows, with the
  environment as it is by then.
\<close>

definition setup_branch :: "app_process_world \<Rightarrow> string list \<Rightarrow> environ \<Rightarrow> run" where
  "setup_branch w argv env =
     (let socket = zygisk_request w in
      if socket \<ge> 0 then
        (if setup_status w \<noteq> 0 then
           and_then [Zygisk_request (SETUP w) socket, Read_int socket (setup_status w),
                     Close socket]
             (fallback w argv env)
         else if setup_fd w < 0 then
           and_then [Zygisk_request (SETUP w) socket, Read_int socket (setup_status w),
                     Write_int socket (int (length (zygisk_ld w))), Xwrite socket (zygisk_ld w),
                     Recv_fd socket (setup_fd w),
                     Close socket]
             (fallback w argv env)
         else
           (let app_proc_fd = setup_fd w;
                env2 = install_env w env;
                evs = [Zygisk_request (SETUP w) socket, Read_int socket (setup_status w),
                       Write_int socket (int (length (zygisk_ld w))), Xwrite socket (zygisk_ld w),
                       Recv_fd socket app_proc_fd,
                       Read_string socket (setup_tmp w),
                       Setenv ''LD_PRELOAD'' (preload_value w env),
                       Setenv (MAGISKTMP_ENV w) (setup_tmp w),
                       Close socket,
                       Fcntl_setfd app_proc_fd FD_CLOEXEC,
                       Write_attr_current ''u:r:init:s0'']
            in case sanitize_environment_variables (env_mem env2) (env_vec env2) of
                 None \<Rightarrow> (evs, Undefined_behaviour)
               | Some vec \<Rightarrow>
                   (let env3 = env2\<lparr>env_vec := vec\<rparr>
                    in if fexecve_ok w then
                         (evs @ [Fexecve app_proc_fd argv env3], Image_replaced)
                       else
                         and_then (evs @ [Fexecve app_proc_fd argv env3, Close socket])
                           (fallback w argv env3))))
      else and_then [Zygisk_request (SETUP w) socket] (fallback w argv env))"

definition app_process_main :: "app_process_world \<Rightarrow> string list \<Rightarrow> environ \<Rightarrow> run" where
  "app_process_main w argv env =
     (if \<not> is_zygote w argv then passthrough_branch w argv env
      else setup_branch w argv env)"

section \<open>The companion daemon \<open>zygiskd\<close> (main.cpp, lines 227 to 299)\<close>

text \<open>
  The open descriptors of the process: \<open>fstat(fd, &s) == 0\<close> exactly when the table has
  \<open>fd\<close>, and then \<open>s\<close> is what the table holds; \<open>close(fd)\<close> removes it. \<open>st_isreg\<close> is
  \<open>S_ISREG(s.st_mode)\<close>.
\<close>

record stat =
  st_dev :: nat
  st_ino :: nat
  st_isreg :: bool

type_synonym fdtable = "fd \<Rightarrow> stat option"

text \<open>
  A \<open>comp_entry\<close> is a function pointer, an address with \<open>0\<close> for \<open>nullptr\<close>. Each round of
  the service loop is given by what \<open>poll\<close> leaves in \<open>pfd.revents\<close>, what \<open>recv_fd(socket)\<close>
  returns and what \<open>read_int(client)\<close> returns.
\<close>

record request =
  poll_revents :: int
  recv_client :: int
  read_module_id :: int

record zygiskd_world =
  getuid :: int
  socket_getfd :: int
  module_fds :: "fd list"
  open_fds :: fdtable
  android_dlopen_ext :: "fd \<Rightarrow> nat option"
  dlsym :: "nat \<Rightarrow> string \<Rightarrow> addr"
  requests :: "request list"

text \<open>The body of the loop over \<open>module_fds\<close>, up to \<open>modules.push_back(entry)\<close>.\<close>

definition load_entry :: "zygiskd_world \<Rightarrow> fdtable \<Rightarrow> fd \<Rightarrow> addr" where
  "load_entry w tab fd =
     (case tab fd of
        None \<Rightarrow> 0
      | Some s \<Rightarrow>
          if st_isreg s then
            (case android_dlopen_ext w fd of
               Some h \<Rightarrow> dlsym w h ''zygisk_companion_entry''
             | None \<Rightarrow> 0)
          else 0)"

text \<open>
  The loop: it returns the registry, the descriptor table and the calls made. Each
  descriptor is closed after its slot is appended.
\<close>

fun load_modules ::
  "zygiskd_world \<Rightarrow> fd list \<Rightarrow> fdtable \<Rightarrow> addr list \<Rightarrow> addr list \<times> fdtable \<times> event list" where
  "load_modules w [] tab modules = (modules, tab, [])"
| "load_modules w (fd # fds) tab modules =
     (case load_modules w fds (tab(fd := None)) (modules @ [load_entry w tab fd]) of
        (modules', tab', evs) \<Rightarrow> (modules', tab', Close fd # evs))"

text \<open>
  The service loop over the rounds it is given; with no round left it stays blocked in
  \<open>poll\<close>. \<open>module_id < modules.size()\<close> compares an \<open>int\<close> that is not negative with a
  \<open>size_t\<close>, so the conversion keeps its value.
\<close>

fun serve :: "addr list \<Rightarrow> fd \<Rightarrow> request list \<Rightarrow> run" where
  "serve modules socket [] = ([], Waiting)"
| "serve modules socket (r # rs) =
     (if poll_revents r \<noteq> 0 \<and> (poll_revents r AND POLLIN) = 0 then ([], Exited 0)
      else if recv_client r < 0 then ([Recv_fd socket (recv_client r)], Exited 0)
      else if read_module_id r \<ge> 0 \<and> nat (read_module_id r) < length modules
              \<and> modules ! nat (read_module_id r) \<noteq> 0 then
        and_then [Recv_fd socket (recv_client r), Read_int (recv_client r) (read_module_id r),
                  Exec_task (modules ! nat (read_module_id r)) (recv_client r)]
          (serve modules socket rs)
      else
        and_then [Recv_fd socket (recv_client r), Read_int (recv_client r) (read_module_id r),
                  Close (recv_client r)]
          (serve modules socket rs))"

definition zygiskd :: "zygiskd_world \<Rightarrow> fd \<Rightarrow> run" where
  "zygiskd w socket =
     (if getuid w \<noteq> 0 \<or> socket_getfd w < 0 then ([], Exited (- 1))
      else (case load_modules w (module_fds w) (open_fds w) [] of
              (modules, tab, evs) \<Rightarrow>
                and_then (Recv_fds socket (module_fds w) # evs @ [Write_int socket 0])
                  (serve modules socket (requests w))))"

text \<open>
  The task handed to \<open>exec_task\<close> (lines 281 to 294), with \<open>entry\<close> and \<open>client\<close> captured.
  \<open>run_entry\<close> is what happens to the descriptor table between the two \<open>fstat\<close> calls: the
  module's code, and whatever else the process does meanwhile. The first \<open>fstat\<close> is not
  checked, so \<open>s1\<close> keeps its uninitialised contents \<open>s1_uninit\<close> when it fails.
\<close>

definition companion_task ::
  "(addr \<Rightarrow> fd \<Rightarrow> fdtable \<Rightarrow> fdtable) \<Rightarrow> stat \<Rightarrow> addr \<Rightarrow> fd \<Rightarrow> fdtable \<Rightarrow> event list \<times> fdtable" where
  "companion_task run_entry s1_uninit entry client tab =
     (let s1 = (case tab client of Some s \<Rightarrow> s | None \<Rightarrow> s1_uninit);
          tab' = run_entry entry client tab
      in case tab' client of
           Some s2 \<Rightarrow>
             if st_dev s1 = st_dev s2 \<and> st_ino s1 = st_ino s2
             then ([Call_entry entry client, Close client], tab'(client := None))
             else ([Call_entry entry client], tab')
         | None \<Rightarrow> ([Call_entry entry client], tab'))"

section \<open>\<open>zygisk_main\<close> (main.cpp, lines 303 to 331)\<close>

text \<open>
  The passthrough helper's calls: \<open>client_getfd\<close> is \<open>fcntl(client, F_GETFD)\<close>, and the request
  codes come from headers outside the sources. \<open>parse_int\<close> is a helper of \<open>base.hpp\<close>.
\<close>

record passthrough_world =
  parse_int :: "string \<Rightarrow> int"
  client_getfd :: int
  ZYGISK_PASSTHROUGH :: int
  PASSTHROUGH :: int
  connect_daemon :: fd
  daemon_status :: int
  daemon_fd :: int

definition zygisk_main :: "passthrough_world \<Rightarrow> zygiskd_world \<Rightarrow> string list \<Rightarrow> run" where
  "zygisk_main w zw argv =
     (if length argv = 3 \<and> argv ! 1 = ''companion'' then
        zygiskd zw (parse_int w (argv ! 2))
      else if length argv = 4 \<and> argv ! 1 = ''passthrough'' then
        (let client = parse_int w (argv ! 2);
             is_64_bit = parse_int w (argv ! 3)
         in if client_getfd w < 0 then ([], Returned 1)
            else
              (let magiskd = connect_daemon w in
               if magiskd \<ge> 0 then
                 (if daemon_status w \<noteq> 0 then
                    ([Connect_daemon (ZYGISK_PASSTHROUGH w) magiskd,
                      Write_int magiskd (PASSTHROUGH w), Write_int magiskd is_64_bit,
                      Read_int magiskd (daemon_status w),
                      Write_int client 1],
                     Returned 0)
                  else
                    ([Connect_daemon (ZYGISK_PASSTHROUGH w) magiskd,
                      Write_int magiskd (PASSTHROUGH w), Write_int magiskd is_64_bit,
                      Read_int magiskd (daemon_status w),
                      Write_int client 0,
                      Recv_fd magiskd (daemon_fd w),
                      Send_fd client (daemon_fd w)],
                     Returned 0))
               else
                 ([Connect_daemon (ZYGISK_PASSTHROUGH w) magiskd, Write_int client 1],
                  Returned 0)))
      else ([], Returned 0))"

section \<open>Reading a run\<close>

text \<open>
  What crosses a connection in a call, and in which direction as seen from the process
  making the call: the \<open>read_*\<close> and \<open>recv_*\<close> helpers take data from the peer, \<open>write_int\<close>,
  \<open>xwrite\<close> and \<open>send_fd\<close> hand data to it. \<open>exchange c evs\<close> keeps the transfers of a run on
  the descriptor \<open>c\<close>.
\<close>

datatype direction = From_daemon | To_daemon

datatype item = Int_item | Bytes_item | Fd_item | String_item

fun wire :: "event \<Rightarrow> (direction \<times> item) option" where
  "wire (Read_int s v) = Some (From_daemon, Int_item)"
| "wire (Write_int s v) = Some (To_daemon, Int_item)"
| "wire (Xwrite s bs) = Some (To_daemon, Bytes_item)"
| "wire (Recv_fd s v) = Some (From_daemon, Fd_item)"
| "wire (Send_fd s v) = Some (To_daemon, Fd_item)"
| "wire (Read_string s str) = Some (From_daemon, String_item)"
| "wire e = None"

fun transfer_on :: "fd \<Rightarrow> event \<Rightarrow> bool" where
  "transfer_on c (Read_int s v) = (s = c)"
| "transfer_on c (Write_int s v) = (s = c)"
| "transfer_on c (Xwrite s bs) = (s = c)"
| "transfer_on c (Recv_fd s v) = (s = c)"
| "transfer_on c (Send_fd s v) = (s = c)"
| "transfer_on c (Read_string s str) = (s = c)"
| "transfer_on c e = False"

definition exchange :: "fd \<Rightarrow> event list \<Rightarrow> event list" where
  "exchange c evs = filter (transfer_on c) evs"

text \<open>
  The exchange after a \<open>SETUP\<close> request as the specification words it: the status, then
  the loader payload (length, bytes), the descriptor and the path, all coming from the
  daemon.
\<close>

definition claimed_setup_exchange :: "(direction \<times> item) option list" where
  "claimed_setup_exchange =
     [Some (From_daemon, Int_item),
      Some (From_daemon, Int_item), Some (From_daemon, Bytes_item),
      Some (From_daemon, Fd_item),
      Some (From_daemon, String_item)]"

fun is_setenv :: "event \<Rightarrow> bool" where
  "is_setenv (Setenv n v) = True"
| "is_setenv e = False"

section \<open>Example inputs\<close>

text \<open>
  A memory whose every byte is \<open>x\<close>: no string in it ever ends. \<open>example_memory\<close> holds five
  terminated strings in front of it, and \<open>example_env\<close> points at them, at the unterminated
  bytes at address 200, and has a stale cell after its null sentinel.
\<close>

definition filled_memory :: memory where
  "filled_memory = (\<lambda>a. CHR ''x'')"

definition example_memory :: memory where
  "example_memory =
     store_cstr 16 ''NOEQ'' (store_cstr 32 ''=X'' (store_cstr 48 ''A=1''
       (store_cstr 64 ''LD_AUDIT=x'' (store_cstr 80 ''B=2'' filled_memory))))"

definition example_env :: "addr list" where
  "example_env = [16, 32, 200, 48, 64, 80, 0, 48]"

definition debug_memory :: memory where
  "debug_memory =
     store_cstr 16 ''LD_DEBUG_OUTPUT=x'' (store_cstr 48 ''LD_LIBRARY_PATHOLOGY=1''
       (store_cstr 80 ''LD_LIBRARY_PATH=/tmp'' zero_memory))"

text \<open>
  A process started as \<open>app_process --zygote\<close> without SELinux, whose \<open>SETUP\<close> request is
  answered with status 0, a descriptor and the path \<open>/data/x\<close>. Its \<open>setenv\<close> writes the new
  string to a fresh address and puts the pointer in front of the array; its environment
  has no \<open>LD_PRELOAD\<close> to begin with.
\<close>

definition example_setenv :: "environ \<Rightarrow> string \<Rightarrow> string \<Rightarrow> environ" where
  "example_setenv e n v =
     (let a = 1000 + 100 * length (env_vec e)
      in \<lparr>env_mem = store_cstr a (n @ ''='' @ v) (env_mem e), env_vec = a # env_vec e\<rparr>)"

definition example_environ :: environ where
  "example_environ = \<lparr>env_mem = store_cstr 16 ''PATH=/system/bin'' zero_memory, env_vec = [16, 0]\<rparr>"

definition zygote_world :: app_process_world where
  "zygote_world =
     \<lparr>selinux_enabled = False, attr_current = None, lp64 = True, socketpair_fds = (3, 4),
      fork_dont_care = 100, execlp_ok = True, helper_status = 0, helper_fd = 5,
      SETUP = 0, zygisk_request = 6, setup_status = 0, zygisk_ld = ''ELFELFELFELF'',
      setup_fd = 7, setup_tmp = ''/data/x'', HIJACK_BIN = ''/system/bin/appwidget'',
      MAGISKTMP_ENV = ''MAGISKTMP'', getenv = (\<lambda>e n. None), setenv = example_setenv,
      fexecve_ok = True, self_exe = ''/system/bin/app_process64'', xumount2_result = - 1,
      execve_ok = True\<rparr>"

definition zygote_argv :: "string list" where
  "zygote_argv = [''app_process'', ''--zygote'']"

definition refused_world :: app_process_world where
  "refused_world = zygote_world\<lparr>setup_status := 1\<rparr>"

definition installed_environ :: environ where
  "installed_environ = install_env zygote_world example_environ"

section \<open>Reading the daemon's run\<close>

text \<open>
  The registry slot by slot: \<open>registry_of\<close> is what the loading loop appends, and
  \<open>close_all fds tab\<close> is the descriptor table after the descriptors \<open>fds\<close> have been closed.
\<close>

fun registry_of :: "zygiskd_world \<Rightarrow> fd list \<Rightarrow> fdtable \<Rightarrow> addr list" where
  "registry_of w [] tab = []"
| "registry_of w (fd # fds) tab = load_entry w tab fd # registry_of w fds (tab(fd := None))"

definition close_all :: "fd list \<Rightarrow> fdtable \<Rightarrow> fdtable" where
  "close_all fds tab = fold (\<lambda>fd t. t(fd := None)) fds tab"

fun is_write_int :: "event \<Rightarrow> bool" where
  "is_write_int (Write_int s v) = True"
| "is_write_int e = False"

fun is_call_entry :: "event \<Rightarrow> bool" where
  "is_call_entry (Call_entry e c) = True"
| "is_call_entry e = False"

fun is_send_fd :: "event \<Rightarrow> bool" where
  "is_send_fd (Send_fd s v) = True"
| "is_send_fd e = False"

section \<open>Example inputs for the daemon and the helper\<close>

text \<open>
  A daemon started by root on an open socket and sent four descriptors: a library with the
  entry symbol, a regular file that does not load, a descriptor that is no regular file, a
  library without the symbol. Five rounds follow, the last with \<open>POLLHUP\<close> alone.
\<close>

definition regular_file :: stat where
  "regular_file = \<lparr>st_dev = 64768, st_ino = 1234, st_isreg = True\<rparr>"

definition example_daemon_world :: zygiskd_world where
  "example_daemon_world =
     \<lparr>getuid = 0, socket_getfd = 0, module_fds = [10, 11, 12, 13],
      open_fds = (\<lambda>fd. if fd = 10 \<or> fd = 11 \<or> fd = 13 then Some regular_file
                        else if fd = 12 then Some (regular_file\<lparr>st_isreg := False\<rparr>)
                        else None),
      android_dlopen_ext = (\<lambda>fd. if fd = 10 then Some 1 else if fd = 13 then Some 2 else None),
      dlsym = (\<lambda>h name. if h = 1 \<and> name = ''zygisk_companion_entry'' then 4096 else 0),
      requests = [\<lparr>poll_revents = 1, recv_client = 20, read_module_id = 0\<rparr>,
                  \<lparr>poll_revents = 1, recv_client = 21, read_module_id = 1\<rparr>,
                  \<lparr>poll_revents = 1, recv_client = 22, read_module_id = 7\<rparr>,
                  \<lparr>poll_revents = 1, recv_client = 23, read_module_id = - 1\<rparr>,
                  \<lparr>poll_revents = 16, recv_client = 24, read_module_id = 0\<rparr>]\<rparr>"

text \<open>
  A client connection on descriptor 20; a module that closes it, after which the number is
  taken by another connection; a module that leaves it alone.
\<close>

definition client_socket :: stat where
  "client_socket = \<lparr>st_dev = 8, st_ino = 100, st_isreg = False\<rparr>"

definition unrelated_socket :: stat where
  "unrelated_socket = \<lparr>st_dev = 8, st_ino = 200, st_isreg = False\<rparr>"

definition one_client :: fdtable where
  "one_client = (\<lambda>fd. if fd = 20 then Some client_socket else None)"

definition closes_and_reused :: "addr \<Rightarrow> fd \<Rightarrow> fdtable \<Rightarrow> fdtable" where
  "closes_and_reused entry c tab = (tab(c := None))(c := Some unrelated_socket)"

definition leaves_open :: "addr \<Rightarrow> fd \<Rightarrow> fdtable \<Rightarrow> fdtable" where
  "leaves_open entry c tab = tab"

text \<open>
  A daemon started by root whose descriptor 3 is an open regular file, so that no peer is
  connected: \<open>fcntl(3, F_GETFD)\<close> succeeds as on any open descriptor, \<open>recv_fds\<close> yields no
  descriptor, \<open>poll\<close> reports the file readable and \<open>recv_fd\<close> fails.
\<close>

definition no_peer_world :: zygiskd_world where
  "no_peer_world =
     \<lparr>getuid = 0, socket_getfd = 0, module_fds = [],
      open_fds = (\<lambda>fd. if fd = 3 then Some regular_file else None),
      android_dlopen_ext = (\<lambda>fd. None),
      dlsym = (\<lambda>h name. 0),
      requests = [\<lparr>poll_revents = 1, recv_client = - 1, read_module_id = 0\<rparr>]\<rparr>"

text \<open>The helper started as \<open>zygisk passthrough 4 1\<close>.\<close>

definition example_parse_int :: "string \<Rightarrow> int" where
  "example_parse_int s = (if s = ''4'' then 4 else if s = ''1'' then 1 else - 1)"

definition helper_world :: passthrough_world where
  "helper_world =
     \<lparr>parse_int = example_parse_int, client_getfd = 0, ZYGISK_PASSTHROUGH = 5, PASSTHROUGH = 2,
      connect_daemon = 9, daemon_status = 0, daemon_fd = 10\<rparr>"

definition helper_argv :: "string list" where
  "helper_argv = [''zygisk'', ''passthrough'', ''4'', ''1'']"


section \<open>Properties of the sanitizer's loops\<close>

text \<open>
  What the scan of \<open>is_valid_environment_variable\<close> returns on a terminated string and on
  bytes with no NUL within the bound; what the comparison loop of \<open>env_match\<close> establishes;
  and the invariant of the copying loop: the cells below \<open>dst\<close> are the kept entries among
  the cells below \<open>src\<close>, and the cells from \<open>src\<close> on are untouched.
\<close>

lemma scan_env_cstr:
  "cstr_at mem p s \<Longrightarrow> int (length s) < MAX_ENV_LEN \<Longrightarrow> k \<le> length s \<Longrightarrow>
   scan_env mem p (int k) f =
     (int (length s),
      if f < 0 \<and> CHR ''='' \<in> set (drop k s)
      then int (k + length (takeWhile (\<lambda>c. c \<noteq> CHR ''='') (drop k s))) else f)"
proof (induction "length s - k" arbitrary: k f)
  case 0
  then have k: "k = length s" by simp
  from 0 have "mem (p + length s) = NUL" by (simp add: cstr_at_def)
  with 0 k show ?case by (subst scan_env.simps) simp
next
  case (Suc d)
  then have klt: "k < length s" by simp
  from Suc.prems(1) have bytes: "map (\<lambda>i. mem (p + i)) [0..<length s] = s" and nonul: "NUL \<notin> set s"
    by (simp_all add: cstr_at_def)
  from bytes klt have mk: "mem (p + k) = s ! k"
    by (metis add_0 nth_map nth_upt length_upt diff_zero)
  from nonul klt have nn: "s ! k \<noteq> NUL" by (metis nth_mem)
  have dk: "drop k s = s ! k # drop (Suc k) s" using klt by (simp add: Cons_nth_drop_Suc)
  have step: "scan_env mem p (int k) f =
      scan_env mem p (int (Suc k)) (if s ! k = CHR ''='' \<and> f < 0 then int k else f)"
    using klt Suc.prems(2) mk nn by (subst scan_env.simps) (simp add: add.commute)
  have IH: "scan_env mem p (int (Suc k)) g =
     (int (length s),
      if g < 0 \<and> CHR ''='' \<in> set (drop (Suc k) s)
      then int (Suc k + length (takeWhile (\<lambda>c. c \<noteq> CHR ''='') (drop (Suc k) s))) else g)" for g
    using Suc.hyps(1)[of "Suc k" g] Suc.hyps(2) Suc.prems klt by simp
  show ?case unfolding step IH dk by auto
qed

lemma scan_env_unterminated:
  "\<forall>j. k \<le> j \<and> int j < MAX_ENV_LEN \<longrightarrow> mem (p + j) \<noteq> NUL \<Longrightarrow> int k \<le> MAX_ENV_LEN \<Longrightarrow>
   fst (scan_env mem p (int k) f) = MAX_ENV_LEN"
proof (induction "nat (MAX_ENV_LEN - int k)" arbitrary: k f)
  case 0
  then have "int k = MAX_ENV_LEN" by simp
  then show ?case by (subst scan_env.simps) simp
next
  case (Suc d)
  then have klt: "int k < MAX_ENV_LEN" by simp
  with Suc.prems(1) have nn: "mem (p + k) \<noteq> NUL" by simp
  have step: "scan_env mem p (int k) f =
      scan_env mem p (int (Suc k)) (if mem (p + k) = CHR ''='' \<and> f < 0 then int k else f)"
    using klt nn by (subst scan_env.simps) (simp add: add.commute)
  have "fst (scan_env mem p (int (Suc k)) g) = MAX_ENV_LEN" for g
    using Suc.hyps(1)[of "Suc k" g] Suc.hyps(2) Suc.prems klt by simp
  then show ?case unfolding step by simp
qed

lemma env_match_loop_post:
  "env_match_loop mem p name i = r \<Longrightarrow>
   i \<le> r \<and> (\<forall>j. i \<le> j \<and> j < r \<longrightarrow> mem (p + j) = literal_at name j \<and> literal_at name j \<noteq> NUL)
   \<and> \<not> (mem (p + r) = literal_at name r \<and> literal_at name r \<noteq> NUL)"
proof (induction mem p name i rule: env_match_loop.induct)
  case (1 mem envstr name i)
  show ?case
  proof (cases "mem (envstr + i) = literal_at name i \<and> literal_at name i \<noteq> NUL")
    case True
    with "1.prems" have "env_match_loop mem envstr name (i + 1) = r"
      by (subst (asm) env_match_loop.simps) simp
    from "1.IH"[OF True this] True show ?thesis
      by (auto simp: le_Suc_eq Suc_le_eq dest: le_neq_implies_less)
  next
    case False
    with "1.prems" have "r = i" by (subst (asm) env_match_loop.simps) simp
    with False show ?thesis by auto
  qed
qed

lemma cstr_at_nth: "cstr_at mem p s \<Longrightarrow> i < length s \<Longrightarrow> mem (p + i) = s ! i"
proof -
  assume a: "cstr_at mem p s" and i: "i < length s"
  then have "map (\<lambda>i. mem (p + i)) [0..<length s] ! i = s ! i" by (simp add: cstr_at_def)
  with i show ?thesis by simp
qed

lemma cstr_at_no_NUL: "cstr_at mem p s \<Longrightarrow> i < length s \<Longrightarrow> mem (p + i) \<noteq> NUL"
  using cstr_at_nth[of mem p s i] by (auto simp: cstr_at_def dest: nth_mem)

lemma literal_at_NUL: "NUL \<notin> set name \<Longrightarrow> (literal_at name i = NUL) = (length name \<le> i)"
  by (auto simp: literal_at_def dest: nth_mem)

lemma env_match_iff:
  assumes nn: "NUL \<notin> set name"
  shows "(env_match mem p name \<noteq> None) =
         (map (\<lambda>j. mem (p + j)) [0..<length name] = name \<and> mem (p + length name) = CHR ''='')"
proof -
  define r where "r = env_match_loop mem p name 0"
  from env_match_loop_post[OF r_def[symmetric]]
  have run: "\<And>j. j < r \<Longrightarrow> mem (p + j) = literal_at name j \<and> literal_at name j \<noteq> NUL"
    and stop: "\<not> (mem (p + r) = literal_at name r \<and> literal_at name r \<noteq> NUL)" by auto
  have rle: "r \<le> length name"
  proof (rule ccontr)
    assume "\<not> r \<le> length name"
    then have "length name < r" by simp
    from run[OF this] show False by (simp add: literal_at_def)
  qed
  have m: "(env_match mem p name \<noteq> None) = (length name \<le> r \<and> mem (p + r) = CHR ''='')"
    by (simp add: env_match_def r_def[symmetric] Let_def literal_at_NUL[OF nn])
  show ?thesis
  proof
    assume "env_match mem p name \<noteq> None"
    with m rle have req: "r = length name" and eq: "mem (p + length name) = CHR ''=''" by auto
    have "map (\<lambda>j. mem (p + j)) [0..<length name] = name"
      using run req by (intro nth_equalityI) (auto simp: literal_at_def)
    with eq show "map (\<lambda>j. mem (p + j)) [0..<length name] = name \<and> mem (p + length name) = CHR ''=''"
      by simp
  next
    assume a: "map (\<lambda>j. mem (p + j)) [0..<length name] = name \<and> mem (p + length name) = CHR ''=''"
    have bytes: "mem (p + j) = name ! j" if "j < length name" for j
    proof -
      from a have "map (\<lambda>j. mem (p + j)) [0..<length name] ! j = name ! j" by simp
      with that show ?thesis by simp
    qed
    have "r = length name"
    proof (rule ccontr)
      assume "r \<noteq> length name"
      with rle have lt: "r < length name" by simp
      with nn have "name ! r \<noteq> NUL" by (metis nth_mem)
      with stop bytes[OF lt] lt show False by (simp add: literal_at_def)
    qed
    with a m show "env_match mem p name \<noteq> None" by simp
  qed
qed

lemma unsafe_loop_iff:
  "unsafe_loop mem p names = (\<exists>u\<in>set names. env_match mem p u \<noteq> None)"
  by (induction names) auto

lemma env_match_entry:
  assumes c: "cstr_at mem p (n @ CHR ''='' # v)" and n: "CHR ''='' \<notin> set n"
    and u: "CHR ''='' \<notin> set u" "NUL \<notin> set u"
  shows "(env_match mem p u \<noteq> None) = (u = n)"
proof -
  let ?s = "n @ CHR ''='' # v"
  have at_n: "mem (p + length n) = CHR ''=''"
    using cstr_at_nth[OF c, of "length n"] by simp
  have in_n: "mem (p + j) = n ! j" if "j < length n" for j
    using cstr_at_nth[OF c, of j] that by (simp add: nth_append)
  show ?thesis
  proof
    assume "env_match mem p u \<noteq> None"
    then have bytes: "map (\<lambda>j. mem (p + j)) [0..<length u] = u"
      and eq: "mem (p + length u) = CHR ''=''" using env_match_iff[OF u(2), of mem p] by blast+
    have ub: "mem (p + j) = u ! j" if "j < length u" for j
    proof -
      from bytes have "map (\<lambda>j. mem (p + j)) [0..<length u] ! j = u ! j" by simp
      with that show ?thesis by simp
    qed
    have len: "length u = length n"
    proof (rule ccontr)
      assume "length u \<noteq> length n"
      then consider "length u < length n" | "length n < length u" by linarith
      then show False
      proof cases
        case 1
        with in_n eq have "n ! length u = CHR ''=''" by simp
        with 1 n show False by (metis nth_mem)
      next
        case 2
        with ub at_n have "u ! length n = CHR ''=''" by simp
        with 2 u(1) show False by (metis nth_mem)
      qed
    qed
    show "u = n" using len ub in_n by (intro nth_equalityI) auto
  next
    assume "u = n"
    moreover have "map (\<lambda>j. mem (p + j)) [0..<length n] = n"
      using in_n by (intro nth_equalityI) auto
    ultimately show "env_match mem p u \<noteq> None"
      using at_n env_match_iff[OF u(2), of mem p] by blast
  qed
qed

lemma deny_list_clean:
  "\<forall>u\<in>set UNSAFE_VARIABLE_NAMES. CHR ''='' \<notin> set u \<and> NUL \<notin> set u"
  by (simp add: UNSAFE_VARIABLE_NAMES_def NUL_def)

lemma is_unsafe_entry:
  assumes c: "cstr_at mem p (n @ CHR ''='' # v)" and n: "CHR ''='' \<notin> set n"
  shows "is_unsafe_environment_variable mem p = (n \<in> set UNSAFE_VARIABLE_NAMES)"
  using deny_list_clean env_match_entry[OF c n]
  by (auto simp: is_unsafe_environment_variable_def unsafe_loop_iff)

lemma is_valid_cstr:
  assumes c: "cstr_at mem p s" and p: "p \<noteq> 0"
  shows "is_valid_environment_variable mem p =
         (int (length s) < MAX_ENV_LEN \<and> CHR ''='' \<in> set s \<and> s \<noteq> [] \<and> s ! 0 \<noteq> CHR ''='')"
proof (cases "int (length s) < MAX_ENV_LEN")
  case True
  have tw: "(int (length (takeWhile (\<lambda>c. c \<noteq> CHR ''='') s)) < 1) = (s = [] \<or> s ! 0 = CHR ''='')"
    by (cases s) auto
  have sc: "scan_env mem p 0 (- 1) =
     (int (length s),
      if CHR ''='' \<in> set s then int (length (takeWhile (\<lambda>c. c \<noteq> CHR ''='') s)) else - 1)"
    using scan_env_cstr[OF c True, of 0 "- 1"] by simp
  show ?thesis
    unfolding is_valid_environment_variable_def sc using True p tw by simp
next
  case False
  have "\<forall>j. 0 \<le> j \<and> int j < MAX_ENV_LEN \<longrightarrow> mem (p + j) \<noteq> NUL"
    using cstr_at_no_NUL[OF c] False by auto
  from scan_env_unterminated[OF this, of "- 1"] have "fst (scan_env mem p 0 (- 1)) = MAX_ENV_LEN"
    by (simp add: MAX_ENV_LEN_def)
  with False show ?thesis
    by (auto simp: is_valid_environment_variable_def split: prod.splits)
qed

lemma is_valid_unterminated:
  assumes "\<forall>j. int j < MAX_ENV_LEN \<longrightarrow> mem (p + j) \<noteq> NUL"
  shows "\<not> is_valid_environment_variable mem p"
proof -
  from assms have "\<forall>j. 0 \<le> j \<and> int j < MAX_ENV_LEN \<longrightarrow> mem (p + j) \<noteq> NUL" by simp
  from scan_env_unterminated[OF this, of "- 1"] have "fst (scan_env mem p 0 (- 1)) = MAX_ENV_LEN"
    by (simp add: MAX_ENV_LEN_def)
  then show ?thesis
    by (auto simp: is_valid_environment_variable_def split: prod.splits)
qed

lemma takeWhile_take_nonzero:
  "\<forall>i<dst. env ! i \<noteq> (0::nat) \<Longrightarrow> dst < length env \<Longrightarrow>
   takeWhile (\<lambda>p. p \<noteq> 0) (env[dst := 0]) = take dst env"
proof -
  assume a: "\<forall>i<dst. env ! i \<noteq> (0::nat)" and d: "dst < length env"
  have e: "env[dst := 0] = take dst env @ 0 # drop (Suc dst) env"
    using d by (simp add: upd_conv_take_nth_drop)
  have "\<forall>x\<in>set (take dst env). x \<noteq> 0"
    using a d by (auto simp: in_set_conv_nth)
  then show ?thesis unfolding e by (simp add: takeWhile_append2)
qed

lemma sanitize_loop_inv:
  "dst \<le> src \<Longrightarrow> 0 \<in> set (drop src env) \<Longrightarrow> \<forall>i<dst. env ! i \<noteq> 0 \<Longrightarrow>
   \<exists>env'. sanitize_loop mem env src dst = Some env' \<and> length env' = length env
     \<and> 0 \<in> set env'
     \<and> takeWhile (\<lambda>p. p \<noteq> 0) env' =
         take dst env @ filter (keep_entry mem) (takeWhile (\<lambda>p. p \<noteq> 0) (drop src env))"
proof (induction mem env src dst rule: sanitize_loop.induct)
  case (1 mem env src dst)
  from "1.prems"(2) have lt: "src < length env" by (cases "src < length env") auto
  have dr: "drop src env = env ! src # drop (Suc src) env"
    using lt by (simp add: Cons_nth_drop_Suc)
  show ?case
  proof (cases "env ! src = 0")
    case True
    have "sanitize_loop mem env src dst = Some (env[dst := 0])"
      using lt True by (subst sanitize_loop.simps) simp
    moreover have "takeWhile (\<lambda>p. p \<noteq> 0) (env[dst := 0]) = take dst env"
      using takeWhile_take_nonzero[OF "1.prems"(3)] lt "1.prems"(1) by simp
    moreover have "0 \<in> set (env[dst := 0])"
      using lt "1.prems"(1) by (metis le_less_trans length_list_update nth_list_update_eq nth_mem)
    ultimately show ?thesis using True dr by simp
  next
    case nz: False
    with "1.prems"(2) dr have z: "0 \<in> set (drop (src + 1) env)" by auto
    show ?thesis
    proof (cases "keep_entry mem (env ! src)")
      case False
      have eq: "sanitize_loop mem env src dst = sanitize_loop mem env (src + 1) dst"
        using lt nz False by (subst sanitize_loop.simps) (auto simp: keep_entry_def)
      have le: "dst \<le> src + 1" using "1.prems"(1) by simp
      have IH: "\<exists>env'. sanitize_loop mem env (src + 1) dst = Some env' \<and> length env' = length env
         \<and> 0 \<in> set env'
         \<and> takeWhile (\<lambda>p. p \<noteq> 0) env' =
           take dst env @ filter (keep_entry mem) (takeWhile (\<lambda>p. p \<noteq> 0) (drop (src + 1) env))"
      proof (cases "is_valid_environment_variable mem (env ! src)")
        case v: False
        from "1.IH"(1)[OF _ nz _ le z "1.prems"(3)] lt v show ?thesis by simp
      next
        case v: True
        with False have u: "is_unsafe_environment_variable mem (env ! src)"
          by (simp add: keep_entry_def)
        from "1.IH"(2)[OF _ nz _ u le z "1.prems"(3)] lt v show ?thesis by simp
      qed
      with eq dr nz False show ?thesis by simp
    next
      case True
      then have v: "is_valid_environment_variable mem (env ! src)"
        and u: "\<not> is_unsafe_environment_variable mem (env ! src)" by (simp_all add: keep_entry_def)
      let ?env2 = "env[dst := env ! src]"
      have eq: "sanitize_loop mem env src dst = sanitize_loop mem ?env2 (src + 1) (dst + 1)"
        using lt nz v u by (subst sanitize_loop.simps) simp
      have le: "dst + 1 \<le> src + 1" using "1.prems"(1) by simp
      have d2: "drop (src + 1) ?env2 = drop (src + 1) env" using "1.prems"(1) by simp
      have z2: "0 \<in> set (drop (src + 1) ?env2)" using z d2 by simp
      have nz2: "\<forall>i<dst + 1. ?env2 ! i \<noteq> 0"
        using "1.prems"(1,3) nz lt by (auto simp: nth_list_update less_Suc_eq)
      have t2: "take (dst + 1) ?env2 = take dst env @ [env ! src]"
        using "1.prems"(1) lt by (simp add: take_Suc_conv_app_nth)
      from "1.IH"(3)[OF _ nz _ u le z2 nz2] lt v
      have "\<exists>env'. sanitize_loop mem ?env2 (src + 1) (dst + 1) = Some env' \<and> length env' = length env
         \<and> 0 \<in> set env'
         \<and> takeWhile (\<lambda>p. p \<noteq> 0) env' =
           take (dst + 1) ?env2 @ filter (keep_entry mem) (takeWhile (\<lambda>p. p \<noteq> 0) (drop (src + 1) ?env2))"
        by simp
      with eq dr nz True t2 d2 show ?thesis by simp
    qed
  qed
qed

lemma sanitize_filter:
  assumes "0 \<in> set env"
  shows "\<exists>env'. sanitize_environment_variables mem env = Some env' \<and> length env' = length env
     \<and> 0 \<in> set env'
     \<and> env_entries env' = filter (keep_entry mem) (env_entries env)"
  using sanitize_loop_inv[of 0 0 env mem] assms
  by (simp add: sanitize_environment_variables_def env_entries_def)

lemma sanitize_no_sentinel:
  "dst \<le> src \<Longrightarrow> 0 \<notin> set (drop src env) \<Longrightarrow> sanitize_loop mem env src dst = None"
proof (induction mem env src dst rule: sanitize_loop.induct)
  case (1 mem env src dst)
  show ?case
  proof (cases "src < length env")
    case False
    then show ?thesis by (subst sanitize_loop.simps) simp
  next
    case True
    then have dr: "drop src env = env ! src # drop (Suc src) env"
      by (simp add: Cons_nth_drop_Suc)
    with "1.prems" have nz: "env ! src \<noteq> 0" and z: "0 \<notin> set (drop (src + 1) env)" by auto
    have z2: "0 \<notin> set (drop (src + 1) (env[dst := env ! src]))"
      using z "1.prems"(1) by simp
    have le: "dst \<le> src + 1" "dst + 1 \<le> src + 1" using "1.prems"(1) by simp_all
    show ?thesis
      using True nz "1.IH"(1)[OF _ nz _ le(1) z] "1.IH"(2)[OF _ nz _ _ le(1) z]
        "1.IH"(3)[OF _ nz _ _ le(2) z2]
      by (subst sanitize_loop.simps) auto
  qed
qed


section \<open>The sanitizer's contract\<close>

lemma takeWhile_sentinel:
  "(0::nat) \<in> set xs \<Longrightarrow> length (takeWhile (\<lambda>p. p \<noteq> 0) xs) < length xs"
  by (induction xs) auto

text \<open>
  C3: for an environment array with a null sentinel the sanitizer returns the same
  array, rewritten in place: the entries before the first null are the former entries that
  the loop body keeps, the same pointers in the same order, followed by a null. An entry
  with no \<open>=\<close>, with \<open>=\<close> as its first byte, or with no NUL in its first \<open>MAX_ENV_LEN\<close> bytes
  is dropped wherever it stands; an entry \<open>name=value\<close> shorter than the bound whose name is
  not deny-listed is kept.
\<close>

theorem sanitize_environment_variables_filters:
  assumes "0 \<in> set env"
  shows "\<exists>env'. sanitize_environment_variables mem env = Some env'
      \<and> length env' = length env
      \<and> env_entries env' = filter (keep_entry mem) (env_entries env)
      \<and> length (env_entries env') < length env'
      \<and> env' ! length (env_entries env') = 0
      \<and> (\<forall>p s. p \<in> set (env_entries env) \<and> cstr_at mem p s \<and> CHR ''='' \<notin> set s
            \<longrightarrow> p \<notin> set (env_entries env'))
      \<and> (\<forall>p s. p \<in> set (env_entries env) \<and> cstr_at mem p (CHR ''='' # s)
            \<longrightarrow> p \<notin> set (env_entries env'))
      \<and> (\<forall>p. p \<in> set (env_entries env) \<and> (\<forall>j. int j < MAX_ENV_LEN \<longrightarrow> mem (p + j) \<noteq> NUL)
            \<longrightarrow> p \<notin> set (env_entries env'))
      \<and> (\<forall>p n v. p \<in> set (env_entries env) \<and> cstr_at mem p (n @ CHR ''='' # v) \<and> n \<noteq> []
              \<and> CHR ''='' \<notin> set n \<and> int (length (n @ CHR ''='' # v)) < MAX_ENV_LEN
              \<and> n \<notin> set UNSAFE_VARIABLE_NAMES
            \<longrightarrow> p \<in> set (env_entries env'))"
proof -
  from sanitize_filter[OF assms, of mem] obtain env' where
    r: "sanitize_environment_variables mem env = Some env'" and
    l: "length env' = length env" and z: "0 \<in> set env'" and
    f: "env_entries env' = filter (keep_entry mem) (env_entries env)" by blast
  have nz: "p \<noteq> 0" if "p \<in> set (env_entries env)" for p
    using that by (auto simp: env_entries_def dest: set_takeWhileD)
  have lt: "length (env_entries env') < length env'"
    using takeWhile_sentinel[OF z] by (simp add: env_entries_def)
  have sentinel: "env' ! length (env_entries env') = 0"
    using nth_length_takeWhile[OF lt[unfolded env_entries_def]] by (simp add: env_entries_def)
  have a: "p \<notin> set (env_entries env')"
    if "p \<in> set (env_entries env)" "cstr_at mem p s" "CHR ''='' \<notin> set s" for p s
    using that is_valid_cstr[OF that(2) nz[OF that(1)]] by (simp add: f keep_entry_def)
  have b: "p \<notin> set (env_entries env')"
    if "p \<in> set (env_entries env)" "cstr_at mem p (CHR ''='' # s)" for p s
    using that is_valid_cstr[OF that(2) nz[OF that(1)]] by (simp add: f keep_entry_def)
  have c: "p \<notin> set (env_entries env')"
    if "p \<in> set (env_entries env)" "\<forall>j. int j < MAX_ENV_LEN \<longrightarrow> mem (p + j) \<noteq> NUL" for p
    using that is_valid_unterminated[OF that(2)] by (simp add: f keep_entry_def)
  have d: "p \<in> set (env_entries env')"
    if "p \<in> set (env_entries env)" "cstr_at mem p (n @ CHR ''='' # v)" "n \<noteq> []"
      "CHR ''='' \<notin> set n" "int (length (n @ CHR ''='' # v)) < MAX_ENV_LEN"
      "n \<notin> set UNSAFE_VARIABLE_NAMES" for p n v
  proof -
    have "(n @ CHR ''='' # v) ! 0 \<noteq> CHR ''=''"
      using that(3,4) by (cases n) auto
    then have "is_valid_environment_variable mem p"
      using is_valid_cstr[OF that(2) nz[OF that(1)]] that(5) by simp
    moreover have "\<not> is_unsafe_environment_variable mem p"
      using is_unsafe_entry[OF that(2,4)] that(6) by simp
    ultimately show ?thesis using that(1) by (simp add: f keep_entry_def)
  qed
  show ?thesis
    using r l f lt sentinel a b c d by blast
qed

lemma example_memory_cstr:
  "cstr_at example_memory 16 ''NOEQ''" "cstr_at example_memory 32 ''=X''"
  "cstr_at example_memory 48 ''A=1''" "cstr_at example_memory 64 ''LD_AUDIT=x''"
  "cstr_at example_memory 80 ''B=2''"
  by (simp_all add: cstr_at_def example_memory_def store_cstr_def filled_memory_def NUL_def upt_rec)

lemma example_memory_unterminated: "example_memory (200 + j) \<noteq> NUL"
  by (simp add: example_memory_def store_cstr_def filled_memory_def NUL_def)

lemma example_memory_valid:
  "\<not> is_valid_environment_variable example_memory 16"
  "\<not> is_valid_environment_variable example_memory 32"
  "\<not> is_valid_environment_variable example_memory 200"
  "is_valid_environment_variable example_memory 48"
  "is_valid_environment_variable example_memory 64"
  "is_valid_environment_variable example_memory 80"
  using is_valid_cstr[OF example_memory_cstr(1)] is_valid_cstr[OF example_memory_cstr(2)]
    is_valid_cstr[OF example_memory_cstr(3)] is_valid_cstr[OF example_memory_cstr(4)]
    is_valid_cstr[OF example_memory_cstr(5)]
    is_valid_unterminated[of example_memory 200] example_memory_unterminated
  by (simp_all add: MAX_ENV_LEN_def)

lemma example_memory_unsafe:
  "\<not> is_unsafe_environment_variable example_memory 48"
  "is_unsafe_environment_variable example_memory 64"
  "\<not> is_unsafe_environment_variable example_memory 80"
  using is_unsafe_entry[of example_memory 48 "''A''" "''1''"]
    is_unsafe_entry[of example_memory 64 "''LD_AUDIT''" "''x''"]
    is_unsafe_entry[of example_memory 80 "''B''" "''2''"] example_memory_cstr
  by (simp_all add: UNSAFE_VARIABLE_NAMES_def)

theorem sanitize_environment_variables_filters_witness:
  "0 \<in> set example_env
   \<and> sanitize_environment_variables example_memory example_env = Some [48, 80, 0, 48, 64, 80, 0, 48]
   \<and> env_entries example_env = [16, 32, 200, 48, 64, 80]
   \<and> env_entries [48, 80, 0, 48, 64, 80, 0, 48] = [48, 80]"
proof -
  have z: "0 \<in> set example_env" by (simp add: example_env_def)
  have e: "env_entries example_env = [16, 32, 200, 48, 64, 80]"
    by (simp add: example_env_def env_entries_def)
  have k: "filter (keep_entry example_memory) [16, 32, 200, 48, 64, 80] = [48, 80]"
    by (simp add: keep_entry_def example_memory_valid example_memory_unsafe)
  have r: "sanitize_environment_variables example_memory example_env
             = Some [48, 80, 0, 48, 64, 80, 0, 48]"
    by (simp add: sanitize_environment_variables_def example_env_def sanitize_loop.simps
          example_memory_valid example_memory_unsafe)
  show ?thesis
    using sanitize_environment_variables_filters[OF z, of example_memory] z e k r
    by (simp add: env_entries_def)
qed

text \<open>
  C2: a well-formed entry \<open>name=value\<close> is removed exactly when \<open>name\<close> is one of the
  deny-listed names, whatever the value. A name that has a deny-listed name as a strict
  prefix, or is a strict prefix of one, is retained unless it is itself deny-listed:
  \<open>LD_DEBUG\<close> and \<open>LD_DEBUG_OUTPUT\<close> are both on the list, so \<open>LD_DEBUG_OUTPUT=x\<close> is removed
  although \<open>LD_DEBUG\<close> is a strict prefix of its name.
\<close>

theorem deny_list_exact_name:
  assumes "0 \<in> set env" and "p \<in> set (env_entries env)"
    and "cstr_at mem p (n @ CHR ''='' # v)" and "n \<noteq> []" and "CHR ''='' \<notin> set n"
    and "int (length (n @ CHR ''='' # v)) < MAX_ENV_LEN"
  shows "is_valid_environment_variable mem p
      \<and> is_unsafe_environment_variable mem p = (n \<in> set UNSAFE_VARIABLE_NAMES)
      \<and> (\<exists>env'. sanitize_environment_variables mem env = Some env'
            \<and> (p \<notin> set (env_entries env')) = (n \<in> set UNSAFE_VARIABLE_NAMES)
            \<and> ((\<exists>d\<in>set UNSAFE_VARIABLE_NAMES. strict_prefix d n \<or> strict_prefix n d)
                  \<and> n \<notin> set UNSAFE_VARIABLE_NAMES
                \<longrightarrow> p \<in> set (env_entries env')))"
proof -
  have nz: "p \<noteq> 0"
    using assms(2) by (auto simp: env_entries_def dest: set_takeWhileD)
  have "(n @ CHR ''='' # v) ! 0 \<noteq> CHR ''=''"
    using assms(4,5) by (cases n) auto
  then have v: "is_valid_environment_variable mem p"
    using is_valid_cstr[OF assms(3) nz] assms(6) by simp
  have u: "is_unsafe_environment_variable mem p = (n \<in> set UNSAFE_VARIABLE_NAMES)"
    by (rule is_unsafe_entry[OF assms(3,5)])
  from sanitize_filter[OF assms(1), of mem] obtain env' where
    r: "sanitize_environment_variables mem env = Some env'" and
    f: "env_entries env' = filter (keep_entry mem) (env_entries env)" by blast
  have "(p \<notin> set (env_entries env')) = (n \<in> set UNSAFE_VARIABLE_NAMES)"
    using assms(2) v u by (simp add: f keep_entry_def)
  with r v u show ?thesis by blast
qed

lemma debug_memory_cstr:
  "cstr_at debug_memory 16 ''LD_DEBUG_OUTPUT=x''"
  "cstr_at debug_memory 48 ''LD_LIBRARY_PATHOLOGY=1''"
  "cstr_at debug_memory 80 ''LD_LIBRARY_PATH=/tmp''"
  by (simp_all add: cstr_at_def debug_memory_def store_cstr_def zero_memory_def NUL_def upt_rec)

theorem deny_list_exact_name_witness:
  "0 \<in> set [16, 48, 80, 0::nat] \<and> 48 \<in> set (env_entries [16, 48, 80, 0])
   \<and> cstr_at debug_memory 48 (''LD_LIBRARY_PATHOLOGY'' @ CHR ''='' # ''1'')
   \<and> int (length (''LD_LIBRARY_PATHOLOGY'' @ CHR ''='' # ''1'')) < MAX_ENV_LEN
   \<and> ''LD_LIBRARY_PATH'' \<in> set UNSAFE_VARIABLE_NAMES
   \<and> strict_prefix ''LD_LIBRARY_PATH'' ''LD_LIBRARY_PATHOLOGY''
   \<and> ''LD_LIBRARY_PATHOLOGY'' \<notin> set UNSAFE_VARIABLE_NAMES
   \<and> \<not> is_unsafe_environment_variable debug_memory 48
   \<and> (\<exists>env'. sanitize_environment_variables debug_memory [16, 48, 80, 0] = Some env'
         \<and> 48 \<in> set (env_entries env'))"
proof -
  have h: "0 \<in> set [16, 48, 80, 0::nat]" "48 \<in> set (env_entries [16, 48, 80, 0])"
    "cstr_at debug_memory 48 (''LD_LIBRARY_PATHOLOGY'' @ CHR ''='' # ''1'')"
    "''LD_LIBRARY_PATHOLOGY'' \<noteq> []" "CHR ''='' \<notin> set ''LD_LIBRARY_PATHOLOGY''"
    "int (length (''LD_LIBRARY_PATHOLOGY'' @ CHR ''='' # ''1'')) < MAX_ENV_LEN"
    using debug_memory_cstr(2) by (simp_all add: env_entries_def MAX_ENV_LEN_def)
  have d: "''LD_LIBRARY_PATH'' \<in> set UNSAFE_VARIABLE_NAMES"
    "strict_prefix ''LD_LIBRARY_PATH'' ''LD_LIBRARY_PATHOLOGY''"
    "''LD_LIBRARY_PATHOLOGY'' \<notin> set UNSAFE_VARIABLE_NAMES"
    by (simp_all add: UNSAFE_VARIABLE_NAMES_def)
  from deny_list_exact_name[OF h] d h show ?thesis by blast
qed

theorem deny_listed_prefix_counterexample:
  "cstr_at debug_memory 16 ''LD_DEBUG_OUTPUT=x''
   \<and> is_valid_environment_variable debug_memory 16
   \<and> ''LD_DEBUG'' \<in> set UNSAFE_VARIABLE_NAMES
   \<and> strict_prefix ''LD_DEBUG'' ''LD_DEBUG_OUTPUT''
   \<and> sanitize_environment_variables debug_memory [16, 0] = Some [0, 0]
   \<and> 16 \<notin> set (env_entries [0, 0])"
proof -
  have v: "is_valid_environment_variable debug_memory 16"
    using is_valid_cstr[OF debug_memory_cstr(1)] by (simp add: MAX_ENV_LEN_def)
  have u: "is_unsafe_environment_variable debug_memory 16"
    using is_unsafe_entry[of debug_memory 16 "''LD_DEBUG_OUTPUT''" "''x''"] debug_memory_cstr(1)
    by (simp add: UNSAFE_VARIABLE_NAMES_def)
  have "sanitize_environment_variables debug_memory [16, 0] = Some [0, 0]"
    by (simp add: sanitize_environment_variables_def sanitize_loop.simps v u)
  with v debug_memory_cstr(1) show ?thesis
    by (simp add: UNSAFE_VARIABLE_NAMES_def env_entries_def)
qed

section \<open>The entry protocol\<close>

text \<open>
  C1: when the \<open>SETUP\<close> request is answered with status 0 and a descriptor arrives,
  the transfers on the daemon connection are, in this order: the status read by the
  process, the length of the loader and the loader bytes written by the process to the
  daemon, the descriptor received by the process, the path string read by the process.
  The loader payload goes to the daemon; it does not come from it.
\<close>

theorem setup_exchange_order:
  assumes "is_zygote w argv" and "zygisk_request w \<ge> 0" and "setup_status w = 0"
    and "setup_fd w \<ge> 0"
  shows "exchange (zygisk_request w) (fst (app_process_main w argv env)) =
           [Read_int (zygisk_request w) 0,
            Write_int (zygisk_request w) (int (length (zygisk_ld w))),
            Xwrite (zygisk_request w) (zygisk_ld w),
            Recv_fd (zygisk_request w) (setup_fd w),
            Read_string (zygisk_request w) (setup_tmp w)]
       \<and> map wire (exchange (zygisk_request w) (fst (app_process_main w argv env))) =
           [Some (From_daemon, Int_item),
            Some (To_daemon, Int_item), Some (To_daemon, Bytes_item),
            Some (From_daemon, Fd_item),
            Some (From_daemon, String_item)]"
  using assms
  by (simp add: app_process_main_def setup_branch_def exchange_def Let_def and_then_def
        fallback_def split: option.splits)

theorem setup_exchange_order_witness:
  "is_zygote zygote_world zygote_argv \<and> zygisk_request zygote_world \<ge> 0
   \<and> setup_status zygote_world = 0 \<and> setup_fd zygote_world \<ge> 0
   \<and> exchange 6 (fst (app_process_main zygote_world zygote_argv example_environ)) =
        [Read_int 6 0, Write_int 6 12, Xwrite 6 ''ELFELFELFELF'', Recv_fd 6 7,
         Read_string 6 ''/data/x'']"
  using setup_exchange_order[of zygote_world zygote_argv example_environ]
  by (simp add: is_zygote_def zygote_world_def zygote_argv_def)

theorem setup_payload_direction_counterexample:
  "setup_status zygote_world = 0
   \<and> map wire (exchange 6 (fst (app_process_main zygote_world zygote_argv example_environ)))
        \<noteq> claimed_setup_exchange
   \<and> map wire (exchange 6 (fst (app_process_main zygote_world zygote_argv example_environ))) ! 2
        = Some (To_daemon, Bytes_item)"
  by (simp add: app_process_main_def setup_branch_def exchange_def Let_def and_then_def
        fallback_def is_zygote_def zygote_world_def zygote_argv_def claimed_setup_exchange_def
        split: option.splits)

text \<open>
  C7: in the zygote branch, when the connection fails, the status is not 0 or no
  descriptor arrives, no \<open>setenv\<close> is called; the run ends with \<open>xreadlink\<close> and \<open>xumount2\<close>
  (detach) on \<open>/proc/self/exe\<close>, whatever \<open>xumount2\<close> returns, and \<open>execve\<close> of the path read,
  with the arguments and the environment the process was started with.
\<close>

theorem setup_failure_falls_back:
  assumes "is_zygote w argv"
    and "zygisk_request w < 0 \<or> setup_status w \<noteq> 0 \<or> setup_fd w < 0"
  shows "app_process_main w argv env =
           ((if zygisk_request w < 0 then
               [Zygisk_request (SETUP w) (zygisk_request w)]
             else if setup_status w \<noteq> 0 then
               [Zygisk_request (SETUP w) (zygisk_request w),
                Read_int (zygisk_request w) (setup_status w),
                Close (zygisk_request w)]
             else
               [Zygisk_request (SETUP w) (zygisk_request w),
                Read_int (zygisk_request w) 0,
                Write_int (zygisk_request w) (int (length (zygisk_ld w))),
                Xwrite (zygisk_request w) (zygisk_ld w),
                Recv_fd (zygisk_request w) (setup_fd w),
                Close (zygisk_request w)])
            @ [Xreadlink ''/proc/self/exe'',
               Xumount2 ''/proc/self/exe'' MNT_DETACH (xumount2_result w),
               Execve (self_exe w) argv env],
            if execve_ok w then Image_replaced else Returned 1)
       \<and> filter is_setenv (fst (app_process_main w argv env)) = []"
  using assms
  by (auto simp: app_process_main_def setup_branch_def Let_def and_then_def fallback_def)

theorem setup_failure_falls_back_witness:
  "is_zygote refused_world zygote_argv
   \<and> setup_status refused_world \<noteq> 0
   \<and> app_process_main refused_world zygote_argv example_environ =
        ([Zygisk_request 0 6, Read_int 6 1, Close 6, Xreadlink ''/proc/self/exe'',
          Xumount2 ''/proc/self/exe'' 2 (- 1),
          Execve ''/system/bin/app_process64'' [''app_process'', ''--zygote''] example_environ],
         Image_replaced)"
  using setup_failure_falls_back[of refused_world zygote_argv example_environ]
  by (simp add: is_zygote_def refused_world_def zygote_world_def zygote_argv_def MNT_DETACH_def)

lemma ld_preload_not_deny_listed: "''LD_PRELOAD'' \<notin> set UNSAFE_VARIABLE_NAMES"
  by (simp add: UNSAFE_VARIABLE_NAMES_def)

text \<open>
  C10: \<open>LD_PRELOAD\<close> is not deny-listed: a well-formed entry named \<open>LD_PRELOAD\<close>
  is retained by the sanitizer, and when the environment after the two \<open>setenv\<close> calls of
  the entry protocol is that record, \<open>fexecve\<close> is called with the sanitized record, which
  still has the entry.
\<close>

theorem ld_preload_survives_sanitization:
  assumes "0 \<in> set env" and "p \<in> set (env_entries env)"
    and "cstr_at mem p (''LD_PRELOAD'' @ CHR ''='' # v)"
    and "int (length (''LD_PRELOAD'' @ CHR ''='' # v)) < MAX_ENV_LEN"
  shows "''LD_PRELOAD'' \<notin> set UNSAFE_VARIABLE_NAMES
      \<and> (\<exists>env'. sanitize_environment_variables mem env = Some env'
            \<and> p \<in> set (env_entries env')
            \<and> (\<forall>w argv e. is_zygote w argv \<and> zygisk_request w \<ge> 0 \<and> setup_status w = 0
                   \<and> setup_fd w \<ge> 0 \<and> install_env w e = \<lparr>env_mem = mem, env_vec = env\<rparr>
                 \<longrightarrow> Fexecve (setup_fd w) argv \<lparr>env_mem = mem, env_vec = env'\<rparr>
                       \<in> set (fst (app_process_main w argv e))))"
proof -
  have nz: "p \<noteq> 0"
    using assms(2) by (auto simp: env_entries_def dest: set_takeWhileD)
  have v: "is_valid_environment_variable mem p"
    using is_valid_cstr[OF assms(3) nz] assms(4) by simp
  have u: "\<not> is_unsafe_environment_variable mem p"
    using is_unsafe_entry[OF assms(3)] ld_preload_not_deny_listed by simp
  from sanitize_filter[OF assms(1), of mem] obtain env' where
    r: "sanitize_environment_variables mem env = Some env'" and
    f: "env_entries env' = filter (keep_entry mem) (env_entries env)" by blast
  have k: "p \<in> set (env_entries env')"
    using assms(2) v u by (simp add: f keep_entry_def)
  have "Fexecve (setup_fd w) argv \<lparr>env_mem = mem, env_vec = env'\<rparr>
          \<in> set (fst (app_process_main w argv e))"
    if "is_zygote w argv" "zygisk_request w \<ge> 0" "setup_status w = 0" "setup_fd w \<ge> 0"
      "install_env w e = \<lparr>env_mem = mem, env_vec = env\<rparr>" for w argv e
    using that r
    by (simp add: app_process_main_def setup_branch_def Let_def and_then_def fallback_def)
  with r k ld_preload_not_deny_listed show ?thesis by blast
qed

lemma installed_environ_eq:
  "installed_environ =
     \<lparr>env_mem = store_cstr 1300 ''MAGISKTMP=/data/x''
                  (store_cstr 1200 ''LD_PRELOAD=/system/bin/appwidget''
                    (store_cstr 16 ''PATH=/system/bin'' zero_memory)),
      env_vec = [1300, 1200, 16, 0]\<rparr>"
  by (simp add: installed_environ_def install_env_def preload_value_def zygote_world_def
        example_setenv_def example_environ_def Let_def)

theorem ld_preload_survives_sanitization_witness:
  "0 \<in> set (env_vec installed_environ)
   \<and> 1200 \<in> set (env_entries (env_vec installed_environ))
   \<and> cstr_at (env_mem installed_environ) 1200 (''LD_PRELOAD'' @ CHR ''='' # ''/system/bin/appwidget'')
   \<and> (\<exists>env'. sanitize_environment_variables (env_mem installed_environ) (env_vec installed_environ)
                = Some env'
         \<and> 1200 \<in> set (env_entries env')
         \<and> Fexecve 7 zygote_argv \<lparr>env_mem = env_mem installed_environ, env_vec = env'\<rparr>
              \<in> set (fst (app_process_main zygote_world zygote_argv example_environ)))"
proof -
  have h: "0 \<in> set (env_vec installed_environ)"
    "1200 \<in> set (env_entries (env_vec installed_environ))"
    "cstr_at (env_mem installed_environ) 1200 (''LD_PRELOAD'' @ CHR ''='' # ''/system/bin/appwidget'')"
    "int (length (''LD_PRELOAD'' @ CHR ''='' # ''/system/bin/appwidget'')) < MAX_ENV_LEN"
    by (simp_all add: installed_environ_eq env_entries_def cstr_at_def store_cstr_def
          zero_memory_def NUL_def upt_rec MAX_ENV_LEN_def)
  have z: "is_zygote zygote_world zygote_argv \<and> zygisk_request zygote_world \<ge> 0
      \<and> setup_status zygote_world = 0 \<and> setup_fd zygote_world \<ge> 0
      \<and> install_env zygote_world example_environ
           = \<lparr>env_mem = env_mem installed_environ, env_vec = env_vec installed_environ\<rparr>"
    by (simp add: is_zygote_def zygote_world_def zygote_argv_def installed_environ_def)
  from ld_preload_survives_sanitization[OF h] obtain env' where
    r: "sanitize_environment_variables (env_mem installed_environ) (env_vec installed_environ) = Some env'"
    and k: "1200 \<in> set (env_entries env')"
    and x: "\<forall>w argv e. is_zygote w argv \<and> zygisk_request w \<ge> 0 \<and> setup_status w = 0
        \<and> setup_fd w \<ge> 0
        \<and> install_env w e = \<lparr>env_mem = env_mem installed_environ, env_vec = env_vec installed_environ\<rparr>
      \<longrightarrow> Fexecve (setup_fd w) argv \<lparr>env_mem = env_mem installed_environ, env_vec = env'\<rparr>
            \<in> set (fst (app_process_main w argv e))"
    by blast
  have s7: "setup_fd zygote_world = 7" by (simp add: zygote_world_def)
  from x[rule_format, of zygote_world zygote_argv example_environ, OF z]
  have "Fexecve 7 zygote_argv \<lparr>env_mem = env_mem installed_environ, env_vec = env'\<rparr>
          \<in> set (fst (app_process_main zygote_world zygote_argv example_environ))"
    unfolding s7 .
  with r k h show ?thesis by blast
qed

section \<open>The companion daemon\<close>

lemma load_modules_eq:
  "load_modules w fds tab acc = (acc @ registry_of w fds tab, close_all fds tab, map Close fds)"
  by (induction fds arbitrary: tab acc) (simp_all add: close_all_def)

lemma length_registry_of: "length (registry_of w fds tab) = length fds"
  by (induction fds arbitrary: tab) simp_all

lemma registry_of_nth:
  "i < length fds \<Longrightarrow>
   registry_of w fds tab ! i = load_entry w (close_all (take i fds) tab) (fds ! i)"
proof (induction fds arbitrary: i tab)
  case Nil
  then show ?case by simp
next
  case (Cons fd fds)
  show ?case
  proof (cases i)
    case 0
    then show ?thesis by (simp add: close_all_def)
  next
    case (Suc j)
    with Cons.prems have "j < length fds" by simp
    then have "registry_of w fds t ! j = load_entry w (close_all (take j fds) t) (fds ! j)" for t
      by (rule Cons.IH)
    with Suc show ?thesis
      by (simp add: close_all_def)
  qed
qed

lemma serve_no_write_int: "filter is_write_int (fst (serve modules socket rs)) = []"
  by (induction rs) (simp_all add: and_then_def)

text \<open>
  C8: a daemon that passes the start-up checks appends one slot per received
  descriptor, in arrival order, so the registry is as long as the batch; the slot is empty
  when the descriptor is not open or no regular file at that moment, when the library does
  not load, or when it has no \<open>zygisk_companion_entry\<close>. Each descriptor is closed, then the
  daemon writes status 0 once, and only then serves; no other \<open>write_int\<close> is ever made.
\<close>

theorem registry_one_slot_per_descriptor:
  assumes "getuid w = 0" and "socket_getfd w \<ge> 0"
  shows "\<exists>modules. length modules = length (module_fds w)
      \<and> (\<forall>i<length (module_fds w).
            modules ! i = load_entry w (close_all (take i (module_fds w)) (open_fds w)) (module_fds w ! i)
            \<and> (close_all (take i (module_fds w)) (open_fds w) (module_fds w ! i) = None
                \<or> (\<exists>s. close_all (take i (module_fds w)) (open_fds w) (module_fds w ! i) = Some s
                        \<and> \<not> st_isreg s)
                \<or> android_dlopen_ext w (module_fds w ! i) = None
                \<or> (\<exists>h. android_dlopen_ext w (module_fds w ! i) = Some h
                        \<and> dlsym w h ''zygisk_companion_entry'' = 0)
               \<longrightarrow> modules ! i = 0))
      \<and> zygiskd w socket =
           and_then (Recv_fds socket (module_fds w) # map Close (module_fds w)
                      @ [Write_int socket 0])
             (serve modules socket (requests w))
      \<and> filter is_write_int (fst (zygiskd w socket)) = [Write_int socket 0]"
proof -
  let ?m = "registry_of w (module_fds w) (open_fds w)"
  have z: "zygiskd w socket =
           and_then (Recv_fds socket (module_fds w) # map Close (module_fds w)
                      @ [Write_int socket 0])
             (serve ?m socket (requests w))"
    using assms by (simp add: zygiskd_def load_modules_eq)
  have f: "filter is_write_int (map Close fds) = []" for fds
    by (induction fds) simp_all
  have one: "filter is_write_int (fst (zygiskd w socket)) = [Write_int socket 0]"
    unfolding z by (simp add: and_then_def serve_no_write_int f)
  have slot: "?m ! i = 0"
    if "i < length (module_fds w)"
      "close_all (take i (module_fds w)) (open_fds w) (module_fds w ! i) = None
        \<or> (\<exists>s. close_all (take i (module_fds w)) (open_fds w) (module_fds w ! i) = Some s
                \<and> \<not> st_isreg s)
        \<or> android_dlopen_ext w (module_fds w ! i) = None
        \<or> (\<exists>h. android_dlopen_ext w (module_fds w ! i) = Some h
                \<and> dlsym w h ''zygisk_companion_entry'' = 0)" for i
    using that by (auto simp: registry_of_nth load_entry_def split: option.splits)
  show ?thesis
    using z one slot by (intro exI[of _ ?m]) (simp add: length_registry_of registry_of_nth)
qed

theorem registry_one_slot_per_descriptor_witness:
  "getuid example_daemon_world = 0 \<and> socket_getfd example_daemon_world \<ge> 0
   \<and> zygiskd example_daemon_world 3 =
       ([Recv_fds 3 [10, 11, 12, 13], Close 10, Close 11, Close 12, Close 13, Write_int 3 0,
         Recv_fd 3 20, Read_int 20 0, Exec_task 4096 20,
         Recv_fd 3 21, Read_int 21 1, Close 21,
         Recv_fd 3 22, Read_int 22 7, Close 22,
         Recv_fd 3 23, Read_int 23 (- 1), Close 23],
        Exited 0)
   \<and> fst (load_modules example_daemon_world [10, 11, 12, 13] (open_fds example_daemon_world) [])
       = [4096, 0, 0, 0]"
  using registry_one_slot_per_descriptor[of example_daemon_world 3]
  by (simp add: example_daemon_world_def zygiskd_def load_entry_def regular_file_def
        and_then_def POLLIN_def)

text \<open>
  C9: the start-up guard makes two checks, the daemon's own user id (\<open>getuid() != 0\<close>) and
  whether its socket argument is an open descriptor (\<open>fcntl(socket, F_GETFD) < 0\<close>). When
  the daemon does not run as uid 0 or the socket is no open descriptor it exits with \<open>-1\<close>
  having made no call at all, so nothing is written to the connection; when both checks
  pass its first call is the \<open>recv_fds\<close> that starts the registry. Neither check asks
  whether a peer is connected: a root daemon on an open descriptor with no peer behind it
  passes both, builds the (empty) registry and writes the acknowledgment.
\<close>

theorem zygiskd_authenticates_first:
  "(getuid w \<noteq> 0 \<or> socket_getfd w < 0 \<longrightarrow> zygiskd w socket = ([], Exited (- 1)))
   \<and> (getuid w = 0 \<and> socket_getfd w \<ge> 0 \<longrightarrow>
        (\<exists>rest. fst (zygiskd w socket) = Recv_fds socket (module_fds w) # rest))"
  by (auto simp: zygiskd_def and_then_def split: prod.splits)

theorem zygiskd_authenticates_first_witness:
  "getuid (example_daemon_world\<lparr>getuid := 2000\<rparr>) \<noteq> 0
   \<and> zygiskd (example_daemon_world\<lparr>getuid := 2000\<rparr>) 3 = ([], Exited (- 1))
   \<and> socket_getfd (example_daemon_world\<lparr>socket_getfd := - 1\<rparr>) < 0
   \<and> zygiskd (example_daemon_world\<lparr>socket_getfd := - 1\<rparr>) 3 = ([], Exited (- 1))
   \<and> getuid example_daemon_world = 0 \<and> socket_getfd example_daemon_world \<ge> 0
   \<and> hd (fst (zygiskd example_daemon_world 3)) = Recv_fds 3 [10, 11, 12, 13]"
  using zygiskd_authenticates_first[of "example_daemon_world\<lparr>getuid := 2000\<rparr>" 3]
    zygiskd_authenticates_first[of "example_daemon_world\<lparr>socket_getfd := - 1\<rparr>" 3]
    zygiskd_authenticates_first[of example_daemon_world 3]
  by (auto simp: example_daemon_world_def)

theorem zygiskd_unconnected_descriptor_counterexample:
  "getuid no_peer_world = 0
   \<and> open_fds no_peer_world 3 = Some regular_file \<and> st_isreg regular_file
   \<and> socket_getfd no_peer_world \<ge> 0
   \<and> zygiskd no_peer_world 3 = ([Recv_fds 3 [], Write_int 3 0, Recv_fd 3 (- 1)], Exited 0)
   \<and> zygiskd no_peer_world 3 \<noteq> ([], Exited (- 1))"
  by (simp add: no_peer_world_def regular_file_def zygiskd_def and_then_def POLLIN_def)

text \<open>
  C5: in a round of the service loop that received a client, a module id that is
  negative, not below the registry length, or that indexes an empty slot makes the daemon
  close the client and go on with the next round, with no task; an id of a populated slot
  makes it hand one task with that slot's entry and the client to \<open>exec_task\<close>, and the task
  calls that entry once, with the client.
\<close>

theorem serve_dispatches_populated_slot:
  assumes "poll_revents r = 0 \<or> (poll_revents r AND POLLIN) \<noteq> 0" and "recv_client r \<ge> 0"
  shows "(read_module_id r < 0 \<or> int (length modules) \<le> read_module_id r
            \<or> modules ! nat (read_module_id r) = 0
          \<longrightarrow> serve modules socket (r # rs) =
                and_then [Recv_fd socket (recv_client r),
                          Read_int (recv_client r) (read_module_id r),
                          Close (recv_client r)]
                  (serve modules socket rs))
       \<and> (0 \<le> read_module_id r \<and> read_module_id r < int (length modules)
            \<and> modules ! nat (read_module_id r) \<noteq> 0
          \<longrightarrow> serve modules socket (r # rs) =
                and_then [Recv_fd socket (recv_client r),
                          Read_int (recv_client r) (read_module_id r),
                          Exec_task (modules ! nat (read_module_id r)) (recv_client r)]
                  (serve modules socket rs)
              \<and> filter is_call_entry
                   (fst (companion_task run_entry s1_uninit (modules ! nat (read_module_id r))
                           (recv_client r) tab))
                 = [Call_entry (modules ! nat (read_module_id r)) (recv_client r)])"
  using assms
  by (auto simp: companion_task_def Let_def split: option.splits)

theorem serve_dispatches_populated_slot_witness:
  "recv_client \<lparr>poll_revents = 1, recv_client = 20, read_module_id = 1\<rparr> \<ge> 0
   \<and> serve [4096, 0, 8192] 3
        [\<lparr>poll_revents = 1, recv_client = 20, read_module_id = 1\<rparr>,
         \<lparr>poll_revents = 1, recv_client = 21, read_module_id = 3\<rparr>,
         \<lparr>poll_revents = 1, recv_client = 22, read_module_id = - 1\<rparr>,
         \<lparr>poll_revents = 1, recv_client = 23, read_module_id = 2\<rparr>]
       = ([Recv_fd 3 20, Read_int 20 1, Close 20,
           Recv_fd 3 21, Read_int 21 3, Close 21,
           Recv_fd 3 22, Read_int 22 (- 1), Close 22,
           Recv_fd 3 23, Read_int 23 2, Exec_task 8192 23], Waiting)
   \<and> fst (companion_task leaves_open client_socket 8192 23 one_client) = [Call_entry 8192 23]"
  using serve_dispatches_populated_slot[of "\<lparr>poll_revents = 1, recv_client = 20, read_module_id = 1\<rparr>"
          "[4096, 0, 8192]" 3
          "[\<lparr>poll_revents = 1, recv_client = 21, read_module_id = 3\<rparr>,
            \<lparr>poll_revents = 1, recv_client = 22, read_module_id = - 1\<rparr>,
            \<lparr>poll_revents = 1, recv_client = 23, read_module_id = 2\<rparr>]"]
  by (simp add: POLLIN_def and_then_def companion_task_def leaves_open_def one_client_def)

text \<open>
  C4: when the first \<open>fstat\<close> of the task succeeded, the task closes the client
  exactly when the second \<open>fstat\<close>, made after the entry returned, succeeds with the same
  device and inode. A descriptor that by then belongs to another file is left open, and a
  descriptor the module closed is not closed again.
\<close>

theorem companion_task_closes_same_file_only:
  assumes "tab client = Some s1"
  shows "(Close client \<in> set (fst (companion_task run_entry s1_uninit entry client tab)))
           = (\<exists>s2. run_entry entry client tab client = Some s2
                  \<and> st_dev s2 = st_dev s1 \<and> st_ino s2 = st_ino s1)
       \<and> (\<forall>s2. run_entry entry client tab client = Some s2
                  \<and> st_dev s2 = st_dev s1 \<and> st_ino s2 = st_ino s1
              \<longrightarrow> companion_task run_entry s1_uninit entry client tab
                    = ([Call_entry entry client, Close client],
                       (run_entry entry client tab)(client := None)))
       \<and> (\<forall>s2. run_entry entry client tab client = Some s2
                  \<and> (st_dev s2 \<noteq> st_dev s1 \<or> st_ino s2 \<noteq> st_ino s1)
              \<longrightarrow> companion_task run_entry s1_uninit entry client tab
                    = ([Call_entry entry client], run_entry entry client tab))
       \<and> (run_entry entry client tab client = None
              \<longrightarrow> companion_task run_entry s1_uninit entry client tab
                    = ([Call_entry entry client], run_entry entry client tab))"
  using assms
  by (auto simp: companion_task_def Let_def split: option.splits)

theorem companion_task_closes_same_file_only_witness:
  "one_client 20 = Some client_socket
   \<and> fst (companion_task closes_and_reused client_socket 4096 20 one_client) = [Call_entry 4096 20]
   \<and> snd (companion_task closes_and_reused client_socket 4096 20 one_client) 20
        = Some unrelated_socket
   \<and> fst (companion_task leaves_open client_socket 4096 20 one_client)
        = [Call_entry 4096 20, Close 20]
   \<and> snd (companion_task leaves_open client_socket 4096 20 one_client) 20 = None"
  using companion_task_closes_same_file_only[where tab = one_client and client = 20
          and ?s1.0 = client_socket and run_entry = closes_and_reused and entry = 4096
          and s1_uninit = client_socket]
    companion_task_closes_same_file_only[where tab = one_client and client = 20
          and ?s1.0 = client_socket and run_entry = leaves_open and entry = 4096
          and s1_uninit = client_socket]
  by (simp add: one_client_def closes_and_reused_def leaves_open_def client_socket_def
        unrelated_socket_def)

section \<open>The passthrough helper\<close>

text \<open>
  C6: the helper, started with an open client descriptor, answers a failed
  connection or a status other than 0 with status 1 on the client and sends no descriptor;
  after status 0 it writes 0 to the client, receives one descriptor from the daemon and
  sends that same descriptor to the client. The request is the code followed by the
  bitness argument.
\<close>

theorem passthrough_helper_relays:
  assumes "length argv = 4" and "argv ! 1 = ''passthrough''" and "client_getfd w \<ge> 0"
  shows "(connect_daemon w < 0
          \<longrightarrow> zygisk_main w zw argv =
                ([Connect_daemon (ZYGISK_PASSTHROUGH w) (connect_daemon w),
                  Write_int (parse_int w (argv ! 2)) 1],
                 Returned 0))
       \<and> (connect_daemon w \<ge> 0 \<and> daemon_status w \<noteq> 0
          \<longrightarrow> zygisk_main w zw argv =
                ([Connect_daemon (ZYGISK_PASSTHROUGH w) (connect_daemon w),
                  Write_int (connect_daemon w) (PASSTHROUGH w),
                  Write_int (connect_daemon w) (parse_int w (argv ! 3)),
                  Read_int (connect_daemon w) (daemon_status w),
                  Write_int (parse_int w (argv ! 2)) 1],
                 Returned 0))
       \<and> (connect_daemon w \<ge> 0 \<and> daemon_status w = 0
          \<longrightarrow> zygisk_main w zw argv =
                ([Connect_daemon (ZYGISK_PASSTHROUGH w) (connect_daemon w),
                  Write_int (connect_daemon w) (PASSTHROUGH w),
                  Write_int (connect_daemon w) (parse_int w (argv ! 3)),
                  Read_int (connect_daemon w) 0,
                  Write_int (parse_int w (argv ! 2)) 0,
                  Recv_fd (connect_daemon w) (daemon_fd w),
                  Send_fd (parse_int w (argv ! 2)) (daemon_fd w)],
                 Returned 0))
       \<and> (connect_daemon w < 0 \<or> daemon_status w \<noteq> 0
          \<longrightarrow> filter is_send_fd (fst (zygisk_main w zw argv)) = [])"
  using assms
  by (auto simp: zygisk_main_def Let_def)

theorem passthrough_helper_relays_witness:
  "length helper_argv = 4 \<and> helper_argv ! 1 = ''passthrough'' \<and> client_getfd helper_world \<ge> 0
   \<and> zygisk_main helper_world example_daemon_world helper_argv =
        ([Connect_daemon 5 9, Write_int 9 2, Write_int 9 1, Read_int 9 0, Write_int 4 0,
          Recv_fd 9 10, Send_fd 4 10], Returned 0)
   \<and> zygisk_main (helper_world\<lparr>daemon_status := 1\<rparr>) example_daemon_world helper_argv =
        ([Connect_daemon 5 9, Write_int 9 2, Write_int 9 1, Read_int 9 1, Write_int 4 1],
         Returned 0)
   \<and> zygisk_main (helper_world\<lparr>connect_daemon := - 1\<rparr>) example_daemon_world helper_argv =
        ([Connect_daemon 5 (- 1), Write_int 4 1], Returned 0)"
  using passthrough_helper_relays[of helper_argv helper_world example_daemon_world]
    passthrough_helper_relays[of helper_argv "helper_world\<lparr>daemon_status := 1\<rparr>" example_daemon_world]
    passthrough_helper_relays[of helper_argv "helper_world\<lparr>connect_daemon := - 1\<rparr>" example_daemon_world]
  by (simp add: helper_argv_def helper_world_def example_parse_int_def)


end
